theory Spec2Isabelle
  imports Main "HOL-Library.Char_ord" "HOL-Library.List_Lexorder"
begin

section \<open>Characters and strings\<close>

text \<open>
  The program works on Python \<open>str\<close> values: sequences of code points, whose \<open>len\<close>
  counts code points. A text is modelled as an Isabelle \<open>string\<close>, each \<open>char\<close> read as
  the code point of the same number (U+0000 to U+00FF). The classifications below are
  the ones CPython applies to these code points in \<open>str.lower\<close>, \<open>str.strip\<close> and in the
  \<open>re\<close> classes \<open>\s\<close>, \<open>\d\<close>, \<open>\w\<close> and \<open>\b\<close> of a \<open>str\<close> pattern.

  The only character of the program beyond U+00FF is the en dash U+2013 in one line of
  the Constraints template. It is written here as the character 0x96: like U+2013 it is
  no whitespace, no word character, has no case and occurs in no vocabulary term, so
  every operation of the program treats the two alike.
\<close>

definition code_point :: "char \<Rightarrow> nat" where
  "code_point c = of_char c"

definition in_range :: "nat \<Rightarrow> nat \<Rightarrow> char \<Rightarrow> bool" where
  "in_range lo hi c = (lo \<le> code_point c \<and> code_point c \<le> hi)"

definition is_space :: "char \<Rightarrow> bool" where
  "is_space c = (in_range 9 13 c \<or> in_range 28 32 c \<or> code_point c = 133 \<or> code_point c = 160)"

definition is_digit :: "char \<Rightarrow> bool" where
  "is_digit c = in_range 48 57 c"

definition is_ascii_letter :: "char \<Rightarrow> bool" where
  "is_ascii_letter c = (in_range 97 122 c \<or> in_range 65 90 c)"

definition is_letter_or_hyphen :: "char \<Rightarrow> bool" where
  "is_letter_or_hyphen c = (is_ascii_letter c \<or> c = CHR ''-'')"

definition is_word :: "char \<Rightarrow> bool" where
  "is_word c = (is_digit c \<or> is_ascii_letter c \<or> c = CHR ''_''
     \<or> code_point c = 170 \<or> in_range 178 179 c \<or> code_point c = 181
     \<or> in_range 185 186 c \<or> in_range 188 190 c
     \<or> in_range 192 214 c \<or> in_range 216 246 c \<or> in_range 248 255 c)"

definition any_char :: "char \<Rightarrow> bool" where
  "any_char c = True"

definition is_blank :: "char \<Rightarrow> bool" where
  "is_blank c = (c = CHR '' '')"

definition is_upper :: "char \<Rightarrow> bool" where
  "is_upper c = (in_range 65 90 c \<or> in_range 192 214 c \<or> in_range 216 222 c)"

definition lower_char :: "char \<Rightarrow> char" where
  "lower_char c = (if is_upper c then char_of (code_point c + 32) else c)"

definition lower :: "string \<Rightarrow> string" where
  "lower s = map lower_char s"

definition strip :: "string \<Rightarrow> string" where
  "strip s = rev (dropWhile is_space (rev (dropWhile is_space s)))"

definition NL :: char where
  "NL = CHR ''\<newline>''"

definition EN_DASH :: char where
  "EN_DASH = CHR 0x96"

fun join :: "string \<Rightarrow> string list \<Rightarrow> string" where
  "join sep [] = []"
| "join sep [x] = x"
| "join sep (x # y # ys) = x @ sep @ join sep (y # ys)"

fun contains :: "string \<Rightarrow> string \<Rightarrow> bool" where
  "contains t [] = (t = [])"
| "contains t (c # cs) = (if take (length t) (c # cs) = t then True else contains t cs)"

section \<open>Regular expressions\<close>

text \<open>
  The patterns of the program use literals, character classes, greedy repetition of a
  single character class (\<open>\s*\<close>, \<open>\s+\<close>, \<open>\d+\<close>, \<open>.*\<close>, \<open> {2,}\<close>), the optional group
  \<open>(...)?\<close>, alternation, \<open>^\<close> (without MULTILINE: the start of the text) and \<open>\b\<close>.
  A cursor is the character before the current position, if any, and the rest of the
  text. \<open>rx_match\<close> returns the cursors at which a match starting at the given cursor can
  end, in the order in which Python's backtracking matcher tries them: the match Python
  reports is the first one.
\<close>

datatype rx =
    Lit string
  | Cls "char \<Rightarrow> bool"
  | Rep nat "char \<Rightarrow> bool"
  | WordB
  | Bol
  | Cat rx rx
  | Alt rx rx
  | Opt rx

type_synonym cursor = "char option \<times> string"

fun seq :: "rx list \<Rightarrow> rx" where
  "seq [] = Lit []"
| "seq [r] = r"
| "seq (r # rs) = Cat r (seq rs)"

fun alts :: "rx list \<Rightarrow> rx" where
  "alts [] = Cls (\<lambda>c. False)"
| "alts [r] = r"
| "alts (r # rs) = Alt r (alts rs)"

definition lits :: "string list \<Rightarrow> rx" where
  "lits ws = alts (map Lit ws)"

definition char_eq :: "bool \<Rightarrow> char \<Rightarrow> char \<Rightarrow> bool" where
  "char_eq ic p c = (if ic then lower_char c = lower_char p else c = p)"

fun lit_match :: "bool \<Rightarrow> string \<Rightarrow> cursor \<Rightarrow> cursor option" where
  "lit_match ic [] cur = Some cur"
| "lit_match ic (p # ps) (prev, []) = None"
| "lit_match ic (p # ps) (prev, c # cs) =
     (if char_eq ic p c then lit_match ic ps (Some c, cs) else None)"

fun run_cursors :: "(char \<Rightarrow> bool) \<Rightarrow> cursor \<Rightarrow> cursor list" where
  "run_cursors P (prev, []) = [(prev, [])]"
| "run_cursors P (prev, c # cs) =
     (if P c then (prev, c # cs) # run_cursors P (Some c, cs) else [(prev, c # cs)])"

definition word_before :: "cursor \<Rightarrow> bool" where
  "word_before cur = (case fst cur of None \<Rightarrow> False | Some c \<Rightarrow> is_word c)"

definition word_after :: "cursor \<Rightarrow> bool" where
  "word_after cur = (case snd cur of [] \<Rightarrow> False | c # cs \<Rightarrow> is_word c)"

definition at_boundary :: "cursor \<Rightarrow> bool" where
  "at_boundary cur = (word_before cur \<noteq> word_after cur)"

fun rx_match :: "bool \<Rightarrow> rx \<Rightarrow> cursor \<Rightarrow> cursor list" where
  "rx_match ic (Lit l) cur = (case lit_match ic l cur of None \<Rightarrow> [] | Some cur' \<Rightarrow> [cur'])"
| "rx_match ic (Cls P) (prev, []) = []"
| "rx_match ic (Cls P) (prev, c # cs) = (if P c then [(Some c, cs)] else [])"
| "rx_match ic (Rep n P) cur = rev (drop n (run_cursors P cur))"
| "rx_match ic WordB cur = (if at_boundary cur then [cur] else [])"
| "rx_match ic Bol cur = (if fst cur = None then [cur] else [])"
| "rx_match ic (Cat a b) cur = concat (map (rx_match ic b) (rx_match ic a cur))"
| "rx_match ic (Alt a b) cur = rx_match ic a cur @ rx_match ic b cur"
| "rx_match ic (Opt a) cur = rx_match ic a cur @ [cur]"

fun cursors :: "cursor \<Rightarrow> cursor list" where
  "cursors (prev, []) = [(prev, [])]"
| "cursors (prev, c # cs) = (prev, c # cs) # cursors (Some c, cs)"

definition matches_at :: "bool \<Rightarrow> rx \<Rightarrow> cursor \<Rightarrow> bool" where
  "matches_at ic r cur = (rx_match ic r cur \<noteq> [])"

definition re_search :: "bool \<Rightarrow> rx \<Rightarrow> string \<Rightarrow> bool" where
  "re_search ic r s = list_ex (matches_at ic r) (cursors (None, s))"

text \<open>
  \<open>re.findall\<close> and \<open>re.sub\<close> scan the text from left to right for non-overlapping
  matches. \<open>re_scan\<close> cuts the text into the matched pieces and the characters between
  them. None of the patterns the program scans with can match the empty string; for
  completeness an empty match is recorded and the scan moves on by one character.
\<close>

datatype piece = Skip char | Match string

function re_scan :: "bool \<Rightarrow> rx \<Rightarrow> cursor \<Rightarrow> piece list" where
  "re_scan ic r (prev, s) =
     (case rx_match ic r (prev, s) of
        [] \<Rightarrow> (case s of [] \<Rightarrow> [] | c # cs \<Rightarrow> Skip c # re_scan ic r (Some c, cs))
      | (prev', s') # rest \<Rightarrow>
          if length s' < length s
          then Match (take (length s - length s') s) # re_scan ic r (prev', s')
          else (case s of [] \<Rightarrow> [Match []]
                | c # cs \<Rightarrow> Match [] # Skip c # re_scan ic r (Some c, cs)))"
  by pat_completeness auto
termination
  by (relation "measure (\<lambda>(ic, r, cur). length (snd cur))") auto

declare re_scan.simps [simp del]

fun matched :: "piece list \<Rightarrow> string list" where
  "matched [] = []"
| "matched (Skip c # ps) = matched ps"
| "matched (Match m # ps) = m # matched ps"

fun replaced :: "string \<Rightarrow> piece list \<Rightarrow> string" where
  "replaced repl [] = []"
| "replaced repl (Skip c # ps) = c # replaced repl ps"
| "replaced repl (Match m # ps) = repl @ replaced repl ps"

definition re_findall :: "bool \<Rightarrow> rx \<Rightarrow> string \<Rightarrow> string list" where
  "re_findall ic r s = matched (re_scan ic r (None, s))"

definition re_sub :: "bool \<Rightarrow> rx \<Rightarrow> string \<Rightarrow> string \<Rightarrow> string" where
  "re_sub ic r repl s = replaced repl (re_scan ic r (None, s))"

section \<open>Vocabulary and patterns (logic.py)\<close>

definition ROLE_PATTERN :: rx where
  "ROLE_PATTERN = seq [WordB, lits [''you are'', ''act as''], WordB]"

definition TASK_PATTERN :: rx where
  "TASK_PATTERN = seq [Bol, Rep 0 is_space,
     lits [''write'', ''draft'', ''plan'', ''create'', ''design'', ''develop'', ''compare'',
           ''summarize'', ''analyze'', ''build'', ''outline'', ''generate'', ''evaluate'',
           ''produce'', ''compose'', ''audit'', ''assess''],
     WordB]"

definition INPUT_PATTERN :: rx where
  "INPUT_PATTERN = seq [WordB,
     alts [Lit ''given'', Lit ''using'', Cat (Lit ''with '') (lits [''this'', ''the'']),
           Lit ''based on'', Lit ''provided'', Lit ''attached'', Lit ''from''],
     WordB]"

definition CONSTRAINT_PATTERN :: rx where
  "CONSTRAINT_PATTERN =
     alts [Cat (Lit ''constraint'') (Opt (Lit ''s'')), Lit ''assume'', Lit ''exclude'',
           Lit ''limit'', Lit ''deadline'', Lit ''budget'', Lit ''must'', Lit ''exactly'',
           Lit ''at least'', Lit ''no more than'']"

definition FORMAT_PATTERN :: rx where
  "FORMAT_PATTERN = seq [WordB,
     lits [''output'', ''return'', ''respond'', ''deliver'', ''format'', ''present'', ''provide''],
     WordB, Rep 0 any_char, WordB,
     alts [Lit ''json'', Lit ''table'', Lit ''markdown'', Cat (Lit ''bullet'') (Opt (Lit ''s'')),
           Lit ''list'', Lit ''outline'', Lit ''chart''],
     WordB]"

definition EXAMPLE_PATTERN :: rx where
  "EXAMPLE_PATTERN = seq [WordB, lits [''example'', ''for instance'', ''eg:'', ''e.g.'']]"

definition STEPS_PATTERN :: rx where
  "STEPS_PATTERN = seq [WordB,
     alts [seq [Lit ''step'', Rep 0 is_space, Rep 1 is_digit], Lit ''steps'', Lit ''process'',
           Lit ''first'', Lit ''second'', Lit ''third'', Lit ''then'', Lit ''next'',
           Lit ''finally''],
     WordB]"

definition SUCCESS_PATTERN :: rx where
  "SUCCESS_PATTERN = seq [WordB,
     alts [Cat (Lit ''success'') (Opt (lits ['' criteria'', '' when''])), Lit ''acceptance'',
           Lit ''definition of done'', Lit ''done when'', Lit ''complete when''],
     WordB]"

text \<open>The pattern \<open>\b\d+(?:\.\d+)?\b\<close> of \<open>_has_constraints\<close>.\<close>

definition NUMBER_PATTERN :: rx where
  "NUMBER_PATTERN = seq [WordB, Rep 1 is_digit, Opt (Cat (Lit ''.'') (Rep 1 is_digit)), WordB]"

text \<open>The pattern of \<open>_count_dangling_pronouns\<close>.\<close>

definition DANGLING_PATTERN :: rx where
  "DANGLING_PATTERN = seq [WordB, lits [''it'', ''this'', ''that'', ''they''], Rep 1 is_space,
     lits [''is'', ''are'', ''was'', ''were'', ''should'', ''must'', ''can'', ''will'', ''need'',
           ''needs''],
     WordB]"

text \<open>The pattern \<open>[a-zA-Z][a-zA-Z\-]+\<close> of \<open>_extract_keywords\<close>.\<close>

definition TOKEN_PATTERN :: rx where
  "TOKEN_PATTERN = Cat (Cls is_ascii_letter) (Rep 1 is_letter_or_hyphen)"

definition AMBIGUOUS_TERMS :: "string list" where
  "AMBIGUOUS_TERMS = [''help me with'', ''help'', ''assist'', ''optimize'', ''improve'',
     ''better'', ''robust'', ''flexible'', ''scalable'', ''easy'', ''efficient'', ''modern'',
     ''as needed'', ''user friendly'', ''marketing plan'', ''strategy'', ''nice'']"

definition VAGUE_QUANTIFIERS :: "string list" where
  "VAGUE_QUANTIFIERS = [''some'', ''many'', ''several'', ''few'', ''often'', ''quickly'',
     ''regularly'', ''usually'', ''sometimes'', ''various'', ''numerous'', ''couple'',
     ''handful'', ''soon'', ''asap'']"

definition AMBIGUOUS_REPLACEMENTS :: "(string \<times> string) list" where
  "AMBIGUOUS_REPLACEMENTS = [
     (''help me with'', ''create''),
     (''help'', ''deliver''),
     (''assist'', ''provide''),
     (''optimize'', ''fine-tune''),
     (''improve'', ''strengthen''),
     (''better'', ''enhance''),
     (''marketing plan'', ''go-to-market roadmap''),
     (''strategy'', ''action blueprint''),
     (''user friendly'', ''accessible for end users''),
     (''modern'', ''contemporary'')]"

definition STOPWORDS :: "string list" where
  "STOPWORDS = [''the'', ''a'', ''an'', ''and'', ''or'', ''of'', ''for'', ''with'', ''within'',
     ''on'', ''in'', ''to'', ''into'', ''me'', ''my'', ''our'', ''your'', ''their'', ''this'',
     ''that'', ''these'', ''those'', ''about'', ''at'', ''by'', ''from'', ''as'', ''it'', ''is'',
     ''are'', ''be'', ''need'', ''needs'', ''needed'', ''please'', ''would'', ''could'',
     ''should'', ''can'', ''we'', ''i'']"

definition AMBIGUOUS_SET :: "string list" where
  "AMBIGUOUS_SET = map lower AMBIGUOUS_TERMS"

definition VAGUE_SET :: "string list" where
  "VAGUE_SET = map lower VAGUE_QUANTIFIERS"

section \<open>The analyzer\<close>

record checks =
  has_role :: bool
  has_task :: bool
  has_inputs :: bool
  has_constraints :: bool
  has_format :: bool
  has_examples :: bool
  has_steps :: bool
  has_success_criteria :: bool

record flags =
  ambiguous_terms :: "string list"
  vague_quantifiers :: "string list"
  dangling_pronouns :: nat

record analysis =
  checks :: checks
  flags :: flags
  score :: int
  "notes" :: "string list"

definition check_values :: "checks \<Rightarrow> bool list" where
  "check_values c = [has_role c, has_task c, has_inputs c, has_constraints c, has_format c,
     has_examples c, has_steps c, has_success_criteria c]"

definition has_constraints_text :: "string \<Rightarrow> bool" where
  "has_constraints_text text =
     (if re_search False NUMBER_PATTERN text then True
      else re_search True CONSTRAINT_PATTERN text)"

text \<open>
  \<open>sorted(xs, key=len, reverse=True)\<close>: Python's sort is stable, also when reversed, so
  terms of equal length keep their order.
\<close>

definition by_length_desc :: "string list \<Rightarrow> string list" where
  "by_length_desc xs = sort_key (\<lambda>t. - int (length t)) xs"

text \<open>
  The loop of \<open>_find_terms\<close> over the candidate terms, with the list \<open>found\<close> as its
  state. \<open>re.search(re.escape(term), lowered)\<close> searches for the term as a literal.
\<close>

fun find_loop :: "string \<Rightarrow> string list \<Rightarrow> string list \<Rightarrow> string list" where
  "find_loop lowered [] found = found"
| "find_loop lowered (term # terms) found =
     (if re_search False (Lit term) lowered
      then (if list_ex (contains term) found
            then find_loop lowered terms found
            else find_loop lowered terms (found @ [term]))
      else find_loop lowered terms found)"

text \<open>
  \<open>_find_terms\<close> iterates over \<open>sorted(set(term_list), key=len, reverse=True)\<close>. The
  order in which a Python set yields terms of equal length is not fixed; here it is the
  order of the list. Two different terms of equal length never contain one another, so
  the terms found do not depend on it, and the result is sorted.
\<close>

definition find_terms :: "string \<Rightarrow> string list \<Rightarrow> string list" where
  "find_terms text term_list =
     sort (find_loop (lower text) (by_length_desc (remdups term_list)) [])"

fun normalize_loop :: "string list \<Rightarrow> string list \<Rightarrow> string list" where
  "normalize_loop [] normalized = normalized"
| "normalize_loop (term # terms) normalized =
     (let term' = (if term = ''help me with'' then ''help'' else term)
      in if term' \<in> set normalized then normalize_loop terms normalized
         else normalize_loop terms (normalized @ [term']))"

definition normalize_terms :: "string list \<Rightarrow> string list" where
  "normalize_terms terms = normalize_loop terms []"

definition count_dangling_pronouns :: "string \<Rightarrow> nat" where
  "count_dangling_pronouns text = length (re_findall True DANGLING_PATTERN text)"

definition calculate_score :: "checks \<Rightarrow> string list \<Rightarrow> string list \<Rightarrow> nat \<Rightarrow> int" where
  "calculate_score c ambiguous vague dangling =
     (let base = int (length (filter (\<lambda>v. v) (check_values c))) * 10;
          penalty = 5 * int (length ambiguous) + 2 * int (length vague) + 3 * int dangling;
          score = base - penalty
      in max 0 (min 100 score))"

definition true_checks :: "checks \<Rightarrow> nat" where
  "true_checks c = length (filter (\<lambda>v. v) (check_values c))"

definition missing_messages :: "((checks \<Rightarrow> bool) \<times> string) list" where
  "missing_messages = [
     (has_role, ''Add a clear role statement such as '' @ [CHR 0x27]
        @ ''You are a specific type of expert.'' @ [CHR 0x27]),
     (has_task, ''Start with an imperative task that describes the expected action.''),
     (has_inputs, ''Reference the inputs or source material the assistant should rely on.''),
     (has_constraints, ''List numeric or explicit constraints to narrow the solution space.''),
     (has_format, ''Specify the output format (tables, bullets, JSON, etc.).''),
     (has_examples, ''Provide concrete examples to anchor expectations.''),
     (has_steps, ''Describe the process or steps the assistant should follow.''),
     (has_success_criteria,
        ''Define what success looks like or how the result will be evaluated.'')]"

definition build_notes :: "checks \<Rightarrow> string list \<Rightarrow> string list \<Rightarrow> nat \<Rightarrow> string list" where
  "build_notes c ambiguous vague dangling =
     (let notes1 = map snd (filter (\<lambda>(key, message). \<not> key c) missing_messages);
          notes2 = (if ambiguous \<noteq> []
                    then notes1 @ [''Clarify or replace ambiguous terms: ''
                           @ join '', '' (sort ambiguous) @ ''.'']
                    else notes1);
          notes3 = (if vague \<noteq> []
                    then notes2 @ [''Quantify vague language (specify counts, ranges, or timeframes) for: ''
                           @ join '', '' (sort vague) @ ''.'']
                    else notes2);
          notes4 = (if dangling \<noteq> 0
                    then notes3 @ [''Resolve dangling pronouns (it/this/that/they) by naming the referent.'']
                    else notes3)
      in if notes4 = []
         then [''Prompt already covers the fundamentals; refine tone or examples as needed.'']
         else notes4)"

definition analyze_prompt :: "string \<Rightarrow> analysis" where
  "analyze_prompt text =
     (let source = (if text = [] then [] else text);
          c = \<lparr> has_role = re_search True ROLE_PATTERN source,
                has_task = re_search True TASK_PATTERN source,
                has_inputs = re_search True INPUT_PATTERN source,
                has_constraints = has_constraints_text source,
                has_format = re_search True FORMAT_PATTERN source,
                has_examples = re_search True EXAMPLE_PATTERN source,
                has_steps = re_search True STEPS_PATTERN source,
                has_success_criteria = re_search True SUCCESS_PATTERN source \<rparr>;
          ambiguous = normalize_terms (find_terms source AMBIGUOUS_TERMS);
          vague = find_terms source VAGUE_QUANTIFIERS;
          dangling = count_dangling_pronouns source
      in \<lparr> checks = c,
           flags = \<lparr> ambiguous_terms = ambiguous, vague_quantifiers = vague,
                     dangling_pronouns = dangling \<rparr>,
           score = calculate_score c ambiguous vague dangling,
           notes = build_notes c ambiguous vague dangling \<rparr>)"

section \<open>The rewriter\<close>

text \<open>
  Python raises \<open>ValueError\<close> in \<open>rewrite_prompt\<close> when the analysis is \<open>None\<close>, and
  \<open>IndexError\<close> when a list is indexed out of range (\<open>keywords[0]\<close>, \<open>keywords[1]\<close>).
\<close>

datatype py_error = ValueError string | IndexError

definition index :: "'a list \<Rightarrow> nat \<Rightarrow> py_error + 'a" where
  "index xs i = (if i < length xs then Inr (xs ! i) else Inl IndexError)"

text \<open>
  \<open>Counter(filtered)\<close> keeps the words in the order in which they are first seen;
  \<open>most_common(limit)\<close> is \<open>heapq.nlargest(limit, items, key=count)\<close>, which returns
  what \<open>sorted(items, key=count, reverse=True)[:limit]\<close> returns: a stable sort.
\<close>

fun count_word :: "string \<Rightarrow> (string \<times> nat) list \<Rightarrow> (string \<times> nat) list" where
  "count_word w [] = [(w, 1)]"
| "count_word w ((k, n) # kvs) =
     (if k = w then (k, n + 1) # kvs else (k, n) # count_word w kvs)"

definition counter :: "string list \<Rightarrow> (string \<times> nat) list" where
  "counter ws = foldl (\<lambda>counts w. count_word w counts) [] ws"

definition most_common :: "nat \<Rightarrow> (string \<times> nat) list \<Rightarrow> (string \<times> nat) list" where
  "most_common limit counts = take limit (sort_key (\<lambda>kv. - int (snd kv)) counts)"

definition extract_keywords :: "string \<Rightarrow> nat \<Rightarrow> string list" where
  "extract_keywords text limit =
     (let tokens = re_findall False TOKEN_PATTERN (lower text);
          filtered = filter (\<lambda>token. token \<notin> set STOPWORDS \<and> token \<notin> set AMBIGUOUS_SET
                               \<and> token \<notin> set VAGUE_SET \<and> length token > 2) tokens;
          counts = counter filtered
      in map fst (most_common limit counts))"

definition build_focus_phrase :: "string list \<Rightarrow> py_error + string" where
  "build_focus_phrase keywords =
     (if keywords = [] then Inr ''project''
      else if ''startup'' \<in> set keywords \<and> ''marketing'' \<in> set keywords
      then Inr ''startup marketing initiative''
      else if length keywords = 1 then index keywords 0
      else (case index keywords 0 of
              Inl e \<Rightarrow> Inl e
            | Inr k0 \<Rightarrow> (case index keywords 1 of
                           Inl e \<Rightarrow> Inl e
                         | Inr k1 \<Rightarrow> Inr (k0 @ '' '' @ k1))))"

definition build_audience_phrase :: "string list \<Rightarrow> py_error + string" where
  "build_audience_phrase keywords =
     (if ''startup'' \<in> set keywords then Inr ''early-stage startup team''
      else if ''students'' \<in> set keywords then Inr ''student audience''
      else if ''executive'' \<in> set keywords \<or> ''leadership'' \<in> set keywords
      then Inr ''executive stakeholders''
      else if keywords \<noteq> []
      then (case index keywords 0 of
              Inl e \<Rightarrow> Inl e
            | Inr k0 \<Rightarrow> Inr (''stakeholders focused on '' @ k0))
      else Inr ''target audience'')"

definition build_role_line :: "string list \<Rightarrow> string" where
  "build_role_line keywords =
     (if ''marketing'' \<in> set keywords
      then ''You are a marketing strategist specializing in go-to-market execution for startups.''
      else if ''product'' \<in> set keywords \<or> ''design'' \<in> set keywords
      then ''You are a product discovery lead who converts fuzzy requests into actionable briefs.''
      else if ''sales'' \<in> set keywords
      then ''You are a revenue operations advisor aligned with data-backed sales planning.''
      else if ''content'' \<in> set keywords \<or> ''writing'' \<in> set keywords
      then ''You are an editorial architect who crafts structured content playbooks.''
      else if ''analysis'' \<in> set keywords \<or> ''analytics'' \<in> set keywords
      then ''You are a data insights consultant focusing on evidence-based recommendations.''
      else if ''engineering'' \<in> set keywords \<or> ''software'' \<in> set keywords
      then ''You are a delivery-focused engineering lead who defines crisp build briefs.''
      else ''You are a clarity coach who turns goals into precise, testable instructions.'')"

definition build_task_line :: "string \<Rightarrow> string" where
  "build_task_line focus_phrase =
     ''Construct a detailed go-to-market roadmap for the '' @ focus_phrase
       @ '', highlighting decisions, rationales, and metrics.''"

text \<open>
  \<open>_replace_ambiguous_terms\<close>: one case-insensitive \<open>re.sub\<close> per term, the terms sorted by
  descending length, then the three whitespace passes and \<open>strip\<close>.
\<close>

definition replacement_for :: "string \<Rightarrow> string" where
  "replacement_for term = (case map_of AMBIGUOUS_REPLACEMENTS term of None \<Rightarrow> [] | Some r \<Rightarrow> r)"

definition substitute_terms :: "string list \<Rightarrow> string \<Rightarrow> string" where
  "substitute_terms terms text =
     foldl (\<lambda>result term. re_sub True (Lit term) (replacement_for term) result) text terms"

definition SPACES_NEWLINE :: rx where
  "SPACES_NEWLINE = Cat (Rep 1 is_space) (Lit [NL])"

definition NEWLINE_SPACES :: rx where
  "NEWLINE_SPACES = Cat (Lit [NL]) (Rep 1 is_space)"

definition BLANKS :: rx where
  "BLANKS = Rep 2 is_blank"

definition replace_ambiguous_terms :: "string \<Rightarrow> string" where
  "replace_ambiguous_terms text =
     (let result = substitute_terms (by_length_desc AMBIGUOUS_TERMS) text;
          result = re_sub False SPACES_NEWLINE [NL] result;
          result = re_sub False NEWLINE_SPACES [NL] result;
          result = re_sub False BLANKS '' '' result
      in strip result)"

definition clean_source :: "string \<Rightarrow> string" where
  "clean_source source =
     replace_ambiguous_terms (re_sub False (Rep 1 is_space) '' '' (strip source))"

definition summarize_source :: "string \<Rightarrow> string" where
  "summarize_source source =
     (if source = [] then ''No original request provided.''
      else (let cleaned = clean_source source
            in if length cleaned \<le> 140 then cleaned else take 137 cleaned @ ''...''))"

definition build_inputs_section :: "string \<Rightarrow> string \<Rightarrow> string \<Rightarrow> string" where
  "build_inputs_section focus_phrase audience_phrase source =
     (let summary = summarize_source source;
          items = [''- Primary focus: '' @ focus_phrase @ ''.'',
                   ''- Audience/context: '' @ audience_phrase @ ''.'',
                   ''- Source request recap: '' @ summary]
      in ''Inputs (brief):'' @ [NL] @ join [NL] items)"

definition build_constraints_section :: string where
  "build_constraints_section =
     ''Constraints:'' @ [NL] @ join [NL]
       [''- Highlight exactly 3 priority initiatives with owners.'',
        ''- Reference a budget range of $5,000'' @ [EN_DASH] @ ''$15,000 USD.'',
        ''- Assume a 30-day rollout timeline with weekly checkpoints.'']"

definition build_format_section :: string where
  "build_format_section =
     ''Output Format:'' @ [NL] @ join [NL]
       [''- Return a markdown table with columns: Step, Owner, Channel, Rationale.'',
        ''- Follow with bullet points covering risks, assumptions, and next actions.'',
        ''- End with a short paragraph summarizing success metrics.'']"

definition build_steps_section :: "string \<Rightarrow> string" where
  "build_steps_section focus_phrase =
     ''Steps:'' @ [NL] @ join [NL]
       [''1. Clarify the audience and objectives for the '' @ focus_phrase @ ''.'',
        ''2. Audit existing assets and gaps using available inputs.'',
        ''3. Prioritize tactics against budget, timeline, and impact.'',
        ''4. Map messaging, channels, and ownership into the requested format.'',
        ''5. Define measurable KPIs and validation steps before concluding.'']"

definition build_success_section :: string where
  "build_success_section =
     ''Success Criteria:'' @ [NL] @ join [NL]
       [''- Recommendations align with the stated constraints and audience.'',
        ''- Output matches the markdown table and bullet list specification.'',
        ''- KPIs include clear numeric targets and monitoring cadence.'']"

definition build_refusal_section :: string where
  "build_refusal_section =
     ''Refusal Boundaries:'' @ [NL] @ join [NL]
       [''- Decline instructions that require unethical tactics or misuse of data.'',
        ''- Escalate if the request involves legal, medical, or financial compliance issues outside scope.'']"

definition sections :: "string list \<Rightarrow> string \<Rightarrow> string \<Rightarrow> string \<Rightarrow> string list" where
  "sections keywords focus_phrase audience_phrase source =
     [''Role:'' @ [NL] @ build_role_line keywords,
      ''Task:'' @ [NL] @ build_task_line focus_phrase,
      build_inputs_section focus_phrase audience_phrase source,
      build_constraints_section,
      build_format_section,
      build_steps_section focus_phrase,
      build_success_section,
      build_refusal_section]"

text \<open>
  The analysis is any value or \<open>None\<close>: \<open>rewrite_prompt\<close> only tests it against \<open>None\<close>.
\<close>

definition rewrite_prompt :: "'a option \<Rightarrow> string \<Rightarrow> py_error + string" where
  "rewrite_prompt analysis text =
     (case analysis of
        None \<Rightarrow> Inl (ValueError ''analysis data is required for rewrite'')
      | Some a \<Rightarrow>
          (let source = (if text = [] then [] else text);
               keywords = extract_keywords source 6
           in case build_focus_phrase keywords of
                Inl e \<Rightarrow> Inl e
              | Inr focus_phrase \<Rightarrow>
                  (case build_audience_phrase keywords of
                     Inl e \<Rightarrow> Inl e
                   | Inr audience_phrase \<Rightarrow>
                       Inr (replace_ambiguous_terms
                              (strip (join [NL, NL]
                                 (sections keywords focus_phrase audience_phrase source)))))))"

section \<open>Notions used in the statements\<close>

text \<open>The vocabulary terms that occur in the lowered text, in the order of the vocabulary.\<close>

definition occurring :: "string list \<Rightarrow> string \<Rightarrow> string list" where
  "occurring terms text = filter (\<lambda>term. contains term (lower text)) terms"

text \<open>The character before the position that follows \<open>pre\<close>, when \<open>p\<close> is the one before \<open>pre\<close>.\<close>

definition prev_after :: "char option \<Rightarrow> string \<Rightarrow> char option" where
  "prev_after p pre = (if pre = [] then p else Some (last pre))"

text \<open>
  Two neighbouring characters of a text, the first with \<open>P\<close> and the second with \<open>Q\<close>: a
  blank line is two neighbouring newlines.
\<close>

fun adjacent :: "(char \<Rightarrow> bool) \<Rightarrow> (char \<Rightarrow> bool) \<Rightarrow> string \<Rightarrow> bool" where
  "adjacent P Q [] = False"
| "adjacent P Q [c] = False"
| "adjacent P Q (c # d # cs) = ((P c \<and> Q d) \<or> adjacent P Q (d # cs))"

definition is_newline :: "char \<Rightarrow> bool" where
  "is_newline c = (c = NL)"

section \<open>Evaluation on concrete texts\<close>

text \<open>
  \<open>lower_char\<close> on a character given by its bits, and the unfolding rules with which the
  simplifier evaluates the classes and the patterns on a concrete text.
\<close>

lemma of_char_Char_nat:
  "(of_char (Char b0 b1 b2 b3 b4 b5 b6 b7) :: nat) =
     of_bool b0 + 2 * of_bool b1 + 4 * of_bool b2 + 8 * of_bool b3 + 16 * of_bool b4
       + 32 * of_bool b5 + 64 * of_bool b6 + 128 * of_bool b7"
  by (simp add: of_char_def)

lemma lower_char_Char:
  "lower_char (Char b0 b1 b2 b3 b4 b5 b6 b7) =
     (if is_upper (Char b0 b1 b2 b3 b4 b5 b6 b7) then Char b0 b1 b2 b3 b4 True b6 b7
      else Char b0 b1 b2 b3 b4 b5 b6 b7)"
proof (cases "is_upper (Char b0 b1 b2 b3 b4 b5 b6 b7)")
  case False
  then show ?thesis by (simp add: lower_char_def)
next
  case True
  have low: "(of_bool b0 + 2 * of_bool b1 + 4 * of_bool b2 + 8 * of_bool b3 + 16 * of_bool b4 :: nat) \<le> 31"
    by (cases b0; cases b1; cases b2; cases b3; cases b4; simp)
  from True low have b5: "\<not> b5"
    by (cases b5; cases b6; cases b7)
       (simp_all add: is_upper_def in_range_def code_point_def of_char_Char_nat)
  have "(of_char (Char b0 b1 b2 b3 b4 True b6 b7) :: nat) = of_char (Char b0 b1 b2 b3 b4 b5 b6 b7) + 32"
    using b5 by (simp add: of_char_Char_nat)
  then have "char_of (code_point (Char b0 b1 b2 b3 b4 b5 b6 b7) + 32) = Char b0 b1 b2 b3 b4 True b6 b7"
    unfolding code_point_def by (metis char_of_char)
  with True show ?thesis by (simp add: lower_char_def)
qed

lemmas char_eval = lower_def lower_char_Char is_upper_def in_range_def code_point_def
  is_space_def is_digit_def is_ascii_letter_def is_letter_or_hyphen_def is_word_def
  any_char_def is_blank_def char_eq_def NL_def EN_DASH_def

lemmas rx_eval = re_search_def matches_at_def re_findall_def re_sub_def re_scan.simps
  lits_def word_before_def word_after_def at_boundary_def

lemmas pattern_defs = ROLE_PATTERN_def TASK_PATTERN_def INPUT_PATTERN_def
  CONSTRAINT_PATTERN_def FORMAT_PATTERN_def EXAMPLE_PATTERN_def STEPS_PATTERN_def
  SUCCESS_PATTERN_def NUMBER_PATTERN_def DANGLING_PATTERN_def TOKEN_PATTERN_def


section \<open>Properties of the score\<close>

lemma true_checks_le_8: "length (filter (\<lambda>v. v) (check_values c)) \<le> 8"
proof -
  have "length (filter (\<lambda>v. v) (check_values c)) \<le> length (check_values c)"
    by (rule length_filter_le)
  then show ?thesis by (simp add: check_values_def)
qed

lemma score_analyze_prompt:
  "score (analyze_prompt text) =
     calculate_score (checks (analyze_prompt text))
       (ambiguous_terms (flags (analyze_prompt text)))
       (vague_quantifiers (flags (analyze_prompt text)))
       (dangling_pronouns (flags (analyze_prompt text)))"
  by (simp add: analyze_prompt_def Let_def)

text \<open>
  C10: the score of every analysis is at most 80. The base is ten points for each of the
  eight checks and the penalty is not negative, so the upper clamp at 100 never binds.
\<close>

theorem score_at_most_80: "score (analyze_prompt text) \<le> 80"
proof -
  have "calculate_score c a v d \<le> 80" for c a v d
  proof -
    have "int (length (filter (\<lambda>v. v) (check_values c))) \<le> 8"
      using true_checks_le_8 [of c] by simp
    then show ?thesis by (simp add: calculate_score_def Let_def)
  qed
  then show ?thesis by (simp add: score_analyze_prompt)
qed

section \<open>Properties of the analyzer\<close>

lemma analyze_prompt_checks:
  "checks (analyze_prompt text) =
     \<lparr> has_role = re_search True ROLE_PATTERN text,
       has_task = re_search True TASK_PATTERN text,
       has_inputs = re_search True INPUT_PATTERN text,
       has_constraints = has_constraints_text text,
       has_format = re_search True FORMAT_PATTERN text,
       has_examples = re_search True EXAMPLE_PATTERN text,
       has_steps = re_search True STEPS_PATTERN text,
       has_success_criteria = re_search True SUCCESS_PATTERN text \<rparr>"
  by (simp add: analyze_prompt_def Let_def)

lemma analyze_prompt_flags:
  "ambiguous_terms (flags (analyze_prompt text)) = normalize_terms (find_terms text AMBIGUOUS_TERMS)"
  "vague_quantifiers (flags (analyze_prompt text)) = find_terms text VAGUE_QUANTIFIERS"
  "dangling_pronouns (flags (analyze_prompt text)) = count_dangling_pronouns text"
  by (simp_all add: analyze_prompt_def Let_def)

lemma analyze_prompt_notes:
  "notes (analyze_prompt text) =
     build_notes (checks (analyze_prompt text))
       (ambiguous_terms (flags (analyze_prompt text)))
       (vague_quantifiers (flags (analyze_prompt text)))
       (dangling_pronouns (flags (analyze_prompt text)))"
  by (simp add: analyze_prompt_def Let_def)




lemma empty_checks:
  "checks (analyze_prompt '''') = \<lparr> has_role = False, has_task = False, has_inputs = False,
    has_constraints = False, has_format = False, has_examples = False, has_steps = False, has_success_criteria = False \<rparr>"
  by (simp add: analyze_prompt_checks has_constraints_text_def
      char_eval rx_eval pattern_defs cong: list.case_cong_weak)

lemma empty_ambiguous: "ambiguous_terms (flags (analyze_prompt '''')) = []"
  by (simp add: analyze_prompt_flags normalize_terms_def find_terms_def by_length_desc_def AMBIGUOUS_TERMS_def
      char_eval rx_eval cong: list.case_cong_weak)

lemma empty_vague: "vague_quantifiers (flags (analyze_prompt '''')) = []"
  by (simp add: analyze_prompt_flags find_terms_def by_length_desc_def VAGUE_QUANTIFIERS_def
      char_eval rx_eval cong: list.case_cong_weak)

lemma empty_dangling: "dangling_pronouns (flags (analyze_prompt '''')) = 0"
  by (simp add: analyze_prompt_flags count_dangling_pronouns_def
      char_eval rx_eval pattern_defs cong: list.case_cong_weak)

text \<open>
  C6: for the empty text every check is false, the score is 0 and the notes are the eight
  messages for missing checks, in the order of the checks, without the fallback note.
\<close>

theorem analyze_prompt_empty:
  "checks (analyze_prompt '''') =
     \<lparr> has_role = False, has_task = False, has_inputs = False, has_constraints = False,
       has_format = False, has_examples = False, has_steps = False,
       has_success_criteria = False \<rparr>
   \<and> score (analyze_prompt '''') = 0
   \<and> notes (analyze_prompt '''') =
       [''Add a clear role statement such as '' @ [CHR 0x27]
          @ ''You are a specific type of expert.'' @ [CHR 0x27],
        ''Start with an imperative task that describes the expected action.'',
        ''Reference the inputs or source material the assistant should rely on.'',
        ''List numeric or explicit constraints to narrow the solution space.'',
        ''Specify the output format (tables, bullets, JSON, etc.).'',
        ''Provide concrete examples to anchor expectations.'',
        ''Describe the process or steps the assistant should follow.'',
        ''Define what success looks like or how the result will be evaluated.'']"
proof -
  have s: "score (analyze_prompt '''') = 0"
    by (simp add: score_analyze_prompt empty_checks empty_ambiguous empty_vague empty_dangling
        calculate_score_def check_values_def)
  have n: "notes (analyze_prompt '''') = map snd missing_messages"
    by (simp add: analyze_prompt_notes empty_checks empty_ambiguous empty_vague empty_dangling
        build_notes_def missing_messages_def)
  show ?thesis
    using empty_checks s n by (simp add: missing_messages_def)
qed

lemma sample_checks:
  "checks (analyze_prompt ''You are a tutor given 3 example first easy nice some'') = \<lparr> has_role = True, has_task = False, has_inputs = True,
    has_constraints = True, has_format = False, has_examples = True, has_steps = True, has_success_criteria = False \<rparr>"
  by (simp add: analyze_prompt_checks has_constraints_text_def
      char_eval rx_eval pattern_defs cong: list.case_cong_weak)

lemma sample_ambiguous: "ambiguous_terms (flags (analyze_prompt ''You are a tutor given 3 example first easy nice some'')) = [''easy'', ''nice'']"
  by (simp add: analyze_prompt_flags normalize_terms_def find_terms_def by_length_desc_def AMBIGUOUS_TERMS_def
      char_eval rx_eval cong: list.case_cong_weak)

lemma sample_vague: "vague_quantifiers (flags (analyze_prompt ''You are a tutor given 3 example first easy nice some'')) = [''some'']"
  by (simp add: analyze_prompt_flags find_terms_def by_length_desc_def VAGUE_QUANTIFIERS_def
      char_eval rx_eval cong: list.case_cong_weak)

lemma sample_dangling: "dangling_pronouns (flags (analyze_prompt ''You are a tutor given 3 example first easy nice some'')) = 0"
  by (simp add: analyze_prompt_flags count_dangling_pronouns_def
      char_eval rx_eval pattern_defs cong: list.case_cong_weak)

text \<open>
  C5: the score is ten times the number of true checks minus the penalty (5 for each
  ambiguous term, 2 for each vague quantifier, 3 for each dangling pronoun), clamped to
  0..100; with 5 true checks, 2 ambiguous terms, 1 vague quantifier and no dangling
  pronoun it is 38.
\<close>

theorem score_formula:
  "score (analyze_prompt text) =
     max 0 (min 100
       (10 * int (true_checks (checks (analyze_prompt text)))
        - (5 * int (length (ambiguous_terms (flags (analyze_prompt text))))
           + 2 * int (length (vague_quantifiers (flags (analyze_prompt text))))
           + 3 * int (dangling_pronouns (flags (analyze_prompt text))))))
   \<and> (true_checks (checks (analyze_prompt text)) = 5
        \<and> length (ambiguous_terms (flags (analyze_prompt text))) = 2
        \<and> length (vague_quantifiers (flags (analyze_prompt text))) = 1
        \<and> dangling_pronouns (flags (analyze_prompt text)) = 0
      \<longrightarrow> score (analyze_prompt text) = 38)"
  by (simp add: score_analyze_prompt calculate_score_def true_checks_def Let_def)

theorem score_formula_witness:
  "true_checks (checks (analyze_prompt ''You are a tutor given 3 example first easy nice some'')) = 5
   \<and> length (ambiguous_terms (flags (analyze_prompt ''You are a tutor given 3 example first easy nice some''))) = 2
   \<and> length (vague_quantifiers (flags (analyze_prompt ''You are a tutor given 3 example first easy nice some''))) = 1
   \<and> dangling_pronouns (flags (analyze_prompt ''You are a tutor given 3 example first easy nice some'')) = 0
   \<and> score (analyze_prompt ''You are a tutor given 3 example first easy nice some'') = 38"
proof -
  have t: "true_checks (checks (analyze_prompt ''You are a tutor given 3 example first easy nice some'')) = 5"
    by (simp add: sample_checks true_checks_def check_values_def)
  have a: "length (ambiguous_terms (flags (analyze_prompt ''You are a tutor given 3 example first easy nice some''))) = 2"
    by (simp add: sample_ambiguous)
  have v: "length (vague_quantifiers (flags (analyze_prompt ''You are a tutor given 3 example first easy nice some''))) = 1"
    by (simp add: sample_vague)
  have "score (analyze_prompt ''You are a tutor given 3 example first easy nice some'') = 38"
    using score_formula [of "''You are a tutor given 3 example first easy nice some''"] t a v sample_dangling by blast
  with t a v sample_dangling show ?thesis
    by blast
qed

lemma lit_match_exact: "lit_match False t (p, s) \<noteq> None \<longleftrightarrow> take (length t) s = t"
proof (induction t arbitrary: p s)
  case Nil
  then show ?case by simp
next
  case (Cons a t)
  then show ?case by (cases s) (auto simp: char_eq_def)
qed

lemma matches_at_Lit: "matches_at False (Lit t) (p, s) \<longleftrightarrow> take (length t) s = t"
  using lit_match_exact [of t p s] by (auto simp: matches_at_def split: option.splits)

lemma list_ex_cursors_Lit:
  "list_ex (matches_at False (Lit t)) (cursors (p, s)) \<longleftrightarrow> contains t s"
proof (induction s arbitrary: p)
  case Nil
  then show ?case by (auto simp: matches_at_Lit)
next
  case (Cons c cs)
  then show ?case by (simp add: matches_at_Lit)
qed

lemma re_search_Lit: "re_search False (Lit t) s \<longleftrightarrow> contains t s"
  by (simp add: re_search_def list_ex_cursors_Lit)

text \<open>
  C4: when the vocabulary terms occurring in the lowered text are exactly
  \<open>help me with\<close> and the \<open>help\<close> it contains, the reported ambiguous terms are
  \<open>[help]\<close>: \<open>help\<close> is not reported next to the longer term, and the longer term is
  renamed to \<open>help\<close>.
\<close>

theorem help_me_with_reported_as_help:
  assumes "occurring AMBIGUOUS_TERMS text = [''help me with'', ''help'']"
  shows "ambiguous_terms (flags (analyze_prompt text)) = [''help'']"
proof -
  have "set (occurring AMBIGUOUS_TERMS text) = {''help me with'', ''help''}"
    using assms by simp
  then have occ: "\<And>t. t \<in> set AMBIGUOUS_TERMS \<Longrightarrow>
      contains t (lower text) \<longleftrightarrow> t = ''help me with'' \<or> t = ''help''"
    unfolding occurring_def by auto
  have c: "contains ''help me with'' (lower text)" "contains ''help'' (lower text)"
    "\<not> contains ''assist'' (lower text)" "\<not> contains ''optimize'' (lower text)"
    "\<not> contains ''improve'' (lower text)" "\<not> contains ''better'' (lower text)"
    "\<not> contains ''robust'' (lower text)" "\<not> contains ''flexible'' (lower text)"
    "\<not> contains ''scalable'' (lower text)" "\<not> contains ''easy'' (lower text)"
    "\<not> contains ''efficient'' (lower text)" "\<not> contains ''modern'' (lower text)"
    "\<not> contains ''as needed'' (lower text)" "\<not> contains ''user friendly'' (lower text)"
    "\<not> contains ''marketing plan'' (lower text)" "\<not> contains ''strategy'' (lower text)"
    "\<not> contains ''nice'' (lower text)"
    by (simp_all add: occ AMBIGUOUS_TERMS_def)
  have "find_terms text AMBIGUOUS_TERMS = [''help me with'']"
    by (simp add: find_terms_def by_length_desc_def AMBIGUOUS_TERMS_def re_search_Lit c)
  then show ?thesis
    by (simp add: analyze_prompt_def Let_def normalize_terms_def)
qed

theorem help_me_with_reported_as_help_witness:
  "occurring AMBIGUOUS_TERMS ''Please HELP me with my taxes'' = [''help me with'', ''help'']
   \<and> ambiguous_terms (flags (analyze_prompt ''Please HELP me with my taxes'')) = [''help'']"
proof -
  have h: "occurring AMBIGUOUS_TERMS ''Please HELP me with my taxes'' = [''help me with'', ''help'']"
    by (simp add: occurring_def AMBIGUOUS_TERMS_def char_eval)
  from h help_me_with_reported_as_help [OF h] show ?thesis by simp
qed

lemma cursors_first: "(p, s) \<in> set (cursors (p, s))"
  by (cases s) simp_all

lemma cursors_append: "(prev_after p pre, rest) \<in> set (cursors (p, pre @ rest))"
proof (induction pre arbitrary: p)
  case Nil
  then show ?case by (simp add: prev_after_def cursors_first)
next
  case (Cons c cs)
  have "prev_after p (c # cs) = prev_after (Some c) cs"
    by (simp add: prev_after_def)
  with Cons [of "Some c"] show ?case by simp
qed

lemma re_search_at:
  "matches_at ic r (prev_after None pre, rest) \<Longrightarrow> re_search ic r (pre @ rest)"
  unfolding re_search_def list_ex_iff using cursors_append [of None pre rest] by blast

lemma rx_match_CatI:
  "c1 \<in> set (rx_match ic a cur) \<Longrightarrow> c2 \<in> set (rx_match ic b c1)
     \<Longrightarrow> c2 \<in> set (rx_match ic (Cat a b) cur)"
  by auto

lemma run_cursors_first: "(p, s) \<in> set (run_cursors P (p, s))"
  by (cases s) simp_all

lemma run_cursors_whole:
  "list_all P ds \<Longrightarrow> ds \<noteq> [] \<Longrightarrow> (Some (last ds), post) \<in> set (tl (run_cursors P (q, ds @ post)))"
proof (induction ds arbitrary: q)
  case Nil
  then show ?case by simp
next
  case (Cons d ds)
  show ?case
  proof (cases ds)
    case Nil
    with Cons.prems show ?thesis by (simp add: run_cursors_first)
  next
    case (Cons d' ds')
    with Cons.prems Cons.IH [of "Some d"]
    have "(Some (last ds), post) \<in> set (tl (run_cursors P (Some d, ds @ post)))"
      by simp
    then have "(Some (last ds), post) \<in> set (run_cursors P (Some d, ds @ post))"
      by (cases "run_cursors P (Some d, ds @ post)") auto
    with Cons.prems Cons show ?thesis by simp
  qed
qed

lemma rx_match_Rep1:
  "list_all P ds \<Longrightarrow> ds \<noteq> [] \<Longrightarrow> (Some (last ds), post) \<in> set (rx_match ic (Rep 1 P) (q, ds @ post))"
  using run_cursors_whole [of P ds post q] by (simp add: drop_Suc)

lemma is_digit_is_word: "is_digit c \<Longrightarrow> is_word c"
  by (simp add: is_word_def)

lemma number_matches:
  assumes "ds \<noteq> []" "list_all is_digit ds"
    "\<not> word_before (q, ds @ post)"
    "post = [] \<or> \<not> is_word (hd post)"
  shows "matches_at ic NUMBER_PATTERN (q, ds @ post)"
proof -
  let ?start = "(q, ds @ post)" and ?stop = "(Some (last ds), post)"
  have after: "word_after ?start"
    using assms(1,2) by (cases ds) (simp_all add: word_after_def is_digit_is_word)
  have b1: "?start \<in> set (rx_match ic WordB ?start)"
    using assms(3) after by (simp add: at_boundary_def)
  have digits: "?stop \<in> set (rx_match ic (Rep 1 is_digit) ?start)"
    by (rule rx_match_Rep1 [OF assms(2) assms(1)])
  have opt: "?stop \<in> set (rx_match ic (Opt (Cat (Lit ''.'') (Rep 1 is_digit))) ?stop)"
    by simp
  have "is_word (last ds)"
    using assms(1,2) by (simp add: list_all_iff is_digit_is_word)
  moreover have "\<not> word_after ?stop"
    using assms(4) by (cases post) (simp_all add: word_after_def)
  ultimately have b2: "?stop \<in> set (rx_match ic WordB ?stop)"
    by (simp add: at_boundary_def word_before_def)
  have "?stop \<in> set (rx_match ic NUMBER_PATTERN ?start)"
    unfolding NUMBER_PATTERN_def seq.simps
    by (intro rx_match_CatI [OF b1] rx_match_CatI [OF digits] rx_match_CatI [OF opt] b2)
  then show ?thesis
    unfolding matches_at_def by auto
qed

text \<open>
  C2, as the code has it: the numeral must stand alone. When the text contains a run of
  digits with no word character (letter, digit or underscore) directly before or after
  it, \<open>has_constraints\<close> is true.
\<close>

theorem standalone_number_has_constraints:
  assumes "text = pre @ ds @ post" and "ds \<noteq> []" and "list_all is_digit ds"
    and "pre = [] \<or> \<not> is_word (last pre)" and "post = [] \<or> \<not> is_word (hd post)"
  shows "has_constraints (checks (analyze_prompt text))"
proof -
  have "\<not> word_before (prev_after None pre, ds @ post)"
    using assms(4) by (auto simp: word_before_def prev_after_def)
  then have "matches_at False NUMBER_PATTERN (prev_after None pre, ds @ post)"
    using assms(2,3,5) by (intro number_matches)
  then have "re_search False NUMBER_PATTERN text"
    unfolding assms(1) by (rule re_search_at)
  then show ?thesis
    by (simp add: analyze_prompt_checks has_constraints_text_def)
qed

theorem standalone_number_has_constraints_witness:
  "''top 5 items'' = ''top '' @ ''5'' @ '' items'' \<and> ''5'' \<noteq> [] \<and> list_all is_digit ''5''
   \<and> \<not> is_word (last ''top '') \<and> \<not> is_word (hd '' items'')
   \<and> has_constraints (checks (analyze_prompt ''top 5 items''))"
proof -
  have a: "''top 5 items'' = ''top '' @ ''5'' @ '' items''" by simp
  have b: "''5'' \<noteq> []" by simp
  have c: "list_all is_digit ''5''" by (simp add: char_eval)
  have d: "\<not> is_word (last ''top '')" by (simp add: char_eval)
  have e: "\<not> is_word (hd '' items'')" by (simp add: char_eval)
  have "has_constraints (checks (analyze_prompt ''top 5 items''))"
    using standalone_number_has_constraints [OF a b c] d e by blast
  with a b c d e show ?thesis by blast
qed

text \<open>
  C2 as stated fails: \<open>v2\<close> contains a numeral, but \<open>\b\<close> does not hold between \<open>v\<close>
  and \<open>2\<close>, and the text has no constraint language.
\<close>

theorem numeral_without_constraints:
  "list_ex is_digit ''v2'' \<and> \<not> has_constraints (checks (analyze_prompt ''v2''))"
  by (simp add: analyze_prompt_checks has_constraints_text_def
      char_eval rx_eval pattern_defs cong: list.case_cong_weak)

section \<open>Properties of the rewriter\<close>

lemma build_focus_phrase_returns: "\<exists>focus. build_focus_phrase kws = Inr focus"
proof (cases kws)
  case Nil
  then show ?thesis by (simp add: build_focus_phrase_def)
next
  case (Cons k ks)
  then show ?thesis
    by (cases ks) (simp_all add: build_focus_phrase_def index_def)
qed

lemma build_audience_phrase_returns: "\<exists>audience. build_audience_phrase kws = Inr audience"
  by (cases kws) (simp_all add: build_audience_phrase_def index_def)

text \<open>
  C8: without an analysis (\<open>None\<close>) \<open>rewrite_prompt\<close> fails with the \<open>ValueError\<close> that the
  specification calls InvalidArgument; with any analysis it returns a string: neither
  \<open>keywords[0]\<close> nor \<open>keywords[1]\<close> is ever evaluated out of range.
\<close>

theorem rewrite_prompt_error_handling:
  "rewrite_prompt None text = Inl (ValueError ''analysis data is required for rewrite'')
   \<and> (\<exists>rewritten. rewrite_prompt (Some a) text = Inr rewritten)"
proof -
  obtain focus where f: "build_focus_phrase (extract_keywords text 6) = Inr focus"
    using build_focus_phrase_returns by blast
  obtain audience where a: "build_audience_phrase (extract_keywords text 6) = Inr audience"
    using build_audience_phrase_returns by blast
  show ?thesis
    by (simp add: rewrite_prompt_def Let_def f a)
qed

text \<open>
  C9: the rewrite depends on the text alone. Any two analyses give the same result for
  the same text, and the function has no state, so two calls with the same inputs agree.
\<close>

theorem rewrite_prompt_ignores_analysis:
  "rewrite_prompt (Some a1) text = rewrite_prompt (Some a2) text"
  by (simp add: rewrite_prompt_def)

section \<open>The source recap\<close>

lemmas rewrite_eval = clean_source_def replace_ambiguous_terms_def substitute_terms_def
  by_length_desc_def AMBIGUOUS_TERMS_def AMBIGUOUS_REPLACEMENTS_def replacement_for_def
  SPACES_NEWLINE_def NEWLINE_SPACES_def BLANKS_def strip_def














section \<open>The layout of the rewrite\<close>

text \<open>
  \<open>rewrite_prompt\<close> joins the eight sections with two newlines and hands the text to
  \<open>_replace_ambiguous_terms\<close>, whose pass from \<open>\n\s+\<close> to \<open>\n\<close> replaces every newline
  together with the whitespace after it, newlines included, by one newline (the pass
  from \<open>\s+\n\<close> to \<open>\n\<close> before it does the same from the other side). After it no
  newline is followed by a whitespace character, and neither the pass over the blanks
  nor \<open>strip\<close> brings two newlines together.
\<close>

lemma adjacent_Cons:
  "adjacent P Q (c # s) = ((P c \<and> s \<noteq> [] \<and> Q (hd s)) \<or> adjacent P Q s)"
  by (cases s) auto

lemma adjacent_append:
  "adjacent P Q (a @ b) =
     (adjacent P Q a \<or> adjacent P Q b \<or> (a \<noteq> [] \<and> b \<noteq> [] \<and> P (last a) \<and> Q (hd b)))"
proof (induction a)
  case Nil
  show ?case by simp
next
  case (Cons c a)
  show ?case
    by (cases a) (use Cons in \<open>auto simp add: adjacent_Cons\<close>)
qed

lemma adjacent_rev: "adjacent P Q (rev s) = adjacent Q P s"
proof (induction s)
  case Nil
  show ?case by simp
next
  case (Cons c s)
  show ?case
    by (cases s) (use Cons in \<open>auto simp add: adjacent_append adjacent_Cons hd_rev\<close>)
qed

lemma adjacent_dropWhile: "\<not> adjacent P Q s \<Longrightarrow> \<not> adjacent P Q (dropWhile R s)"
proof -
  assume a: "\<not> adjacent P Q s"
  have "s = takeWhile R s @ dropWhile R s" by simp
  then have "\<not> adjacent P Q (takeWhile R s @ dropWhile R s)" using a by simp
  then show ?thesis unfolding adjacent_append by blast
qed

lemma adjacent_strip: "\<not> adjacent P P s \<Longrightarrow> \<not> adjacent P P (strip s)"
  unfolding strip_def adjacent_rev
  by (intro adjacent_dropWhile) (simp add: adjacent_rev adjacent_dropWhile)

lemma adjacent_mono: "adjacent P Q s \<Longrightarrow> (\<And>c. Q c \<Longrightarrow> Q' c) \<Longrightarrow> adjacent P Q' s"
  by (induction P Q s rule: adjacent.induct) auto

lemma contains_adjacent: "contains [NL, NL] s = adjacent is_newline is_newline s"
proof (induction s)
  case Nil
  show ?case by simp
next
  case (Cons c s)
  show ?case
  proof (cases s)
    case Nil
    then show ?thesis by simp
  next
    case (Cons d ds)
    then show ?thesis using Cons.IH by (auto simp add: is_newline_def)
  qed
qed


lemma re_scan_Nil: "rx_match ic r (p, []) = [] \<Longrightarrow> re_scan ic r (p, []) = []"
  by (simp add: re_scan.simps)

lemma re_scan_skip:
  "rx_match ic r (p, c # cs) = [] \<Longrightarrow> re_scan ic r (p, c # cs) = Skip c # re_scan ic r (Some c, cs)"
  by (simp add: re_scan.simps)

lemma re_scan_match:
  "rx_match ic r (p, s) = (p', s') # rest \<Longrightarrow> length s' < length s \<Longrightarrow>
   re_scan ic r (p, s) = Match (take (length s - length s') s) # re_scan ic r (p', s')"
  by (simp add: re_scan.simps)

lemma run_cursors_length: "length (run_cursors P (p, s)) = Suc (length (takeWhile P s))"
  by (induction s arbitrary: p) auto

lemma run_cursors_nonempty: "run_cursors P (p, s) \<noteq> []"
  by (cases s) auto

lemma run_cursors_last: "snd (last (run_cursors P (p, s))) = dropWhile P s"
  by (induction s arbitrary: p) (auto simp add: run_cursors_nonempty)

lemma rx_match_Rep_Nil:
  "rx_match ic (Rep n P) (p, s) = [] \<longleftrightarrow> length (takeWhile P s) < n"
  by (auto simp add: run_cursors_length)

lemma rx_match_Rep_hd:
  assumes "rx_match ic (Rep n P) (p, s) = x # xs"
  shows "snd x = dropWhile P s"
proof -
  have ne: "drop n (run_cursors P (p, s)) \<noteq> []" using assms by auto
  have "x = hd (rev (drop n (run_cursors P (p, s))))" using assms by simp
  also have "\<dots> = last (drop n (run_cursors P (p, s)))" using ne by (simp add: hd_rev)
  also have "\<dots> = last (run_cursors P (p, s))" using ne by (simp add: last_drop)
  finally show ?thesis by (simp add: run_cursors_last)
qed

lemma rx_match_NEWLINE_SPACES:
  "rx_match False NEWLINE_SPACES (p, s) =
     (case s of [] \<Rightarrow> [] | c # cs \<Rightarrow> if c = NL then rx_match False (Rep 1 is_space) (Some c, cs) else [])"
  by (cases s) (simp_all add: NEWLINE_SPACES_def char_eq_def)


lemma is_space_NL: "is_space NL"
  by (simp add: is_space_def in_range_def code_point_def NL_def)

lemma takeWhile_short: "length (takeWhile P s) < 1 \<longleftrightarrow> s = [] \<or> \<not> P (hd s)"
  by (cases s) auto

lemma dropWhile_head: "dropWhile P s = [] \<or> \<not> P (hd (dropWhile P s))"
  using hd_dropWhile [of P s] by blast

lemma scan_newline_spaces_head:
  assumes "s = [] \<or> \<not> is_space (hd s)"
  shows "replaced [NL] (re_scan False NEWLINE_SPACES (p, s)) = []
       \<or> \<not> is_space (hd (replaced [NL] (re_scan False NEWLINE_SPACES (p, s))))"
proof (cases s)
  case Nil
  then show ?thesis by (simp add: re_scan_Nil rx_match_NEWLINE_SPACES)
next
  case (Cons c cs)
  then have c: "\<not> is_space c" using assms by simp
  then have "c \<noteq> NL" using is_space_NL by auto
  then have "rx_match False NEWLINE_SPACES (p, c # cs) = []"
    by (simp add: rx_match_NEWLINE_SPACES)
  then show ?thesis using Cons c by (simp add: re_scan_skip)
qed

lemma scan_newline_spaces:
  "\<not> adjacent is_newline is_space (replaced [NL] (re_scan False NEWLINE_SPACES (p, s)))"
proof (induction "length s" arbitrary: p s rule: less_induct)
  case less
  show ?case
  proof (cases "rx_match False NEWLINE_SPACES (p, s)")
    case Nil
    note no_match = Nil
    show ?thesis
    proof (cases s)
      case Nil
      then show ?thesis using no_match by (simp add: re_scan_Nil)
    next
      case (Cons c cs)
      have scan: "re_scan False NEWLINE_SPACES (p, s) = Skip c # re_scan False NEWLINE_SPACES (Some c, cs)"
        using no_match Cons by (simp add: re_scan_skip)
      have IH: "\<not> adjacent is_newline is_space (replaced [NL] (re_scan False NEWLINE_SPACES (Some c, cs)))"
        using less [of cs "Some c"] Cons by simp
      show ?thesis
      proof (cases "c = NL")
        case True
        then have "rx_match False (Rep 1 is_space) (Some c, cs) = []"
          using no_match Cons by (simp add: rx_match_NEWLINE_SPACES)
        then have "cs = [] \<or> \<not> is_space (hd cs)"
          unfolding rx_match_Rep_Nil takeWhile_short .
        then have "replaced [NL] (re_scan False NEWLINE_SPACES (Some c, cs)) = []
           \<or> \<not> is_space (hd (replaced [NL] (re_scan False NEWLINE_SPACES (Some c, cs))))"
          by (rule scan_newline_spaces_head)
        then show ?thesis using IH by (auto simp add: scan adjacent_Cons)
      next
        case False
        then show ?thesis using IH by (simp add: scan adjacent_Cons is_newline_def)
      qed
    qed
  next
    case (Cons x xs)
    obtain p' s' where x: "x = (p', s')" by (cases x)
    obtain c cs where s: "s = c # cs" and c: "c = NL"
      and rep: "rx_match False (Rep 1 is_space) (Some c, cs) = x # xs"
      using Cons by (cases s) (auto simp add: rx_match_NEWLINE_SPACES split: if_splits)
    have s': "s' = dropWhile is_space cs"
      using rx_match_Rep_hd [OF rep] x by simp
    have "length s' \<le> length cs" unfolding s' by (rule length_dropWhile_le)
    then have shorter: "length s' < length s" using s by simp
    have scan: "re_scan False NEWLINE_SPACES (p, s)
        = Match (take (length s - length s') s) # re_scan False NEWLINE_SPACES (p', s')"
      using Cons x shorter by (simp add: re_scan_match)
    have IH: "\<not> adjacent is_newline is_space (replaced [NL] (re_scan False NEWLINE_SPACES (p', s')))"
      using less [of s' p'] shorter by simp
    have "s' = [] \<or> \<not> is_space (hd s')" unfolding s' by (rule dropWhile_head)
    then have "replaced [NL] (re_scan False NEWLINE_SPACES (p', s')) = []
       \<or> \<not> is_space (hd (replaced [NL] (re_scan False NEWLINE_SPACES (p', s'))))"
      by (rule scan_newline_spaces_head)
    then show ?thesis using IH by (auto simp add: scan adjacent_Cons)
  qed
qed


lemma rx_match_Rep_shorter:
  assumes "rx_match ic (Rep n P) (p, s) = x # xs" and "0 < n"
  shows "length (snd x) < length s"
proof -
  have "\<not> length (takeWhile P s) < n"
    using assms(1) rx_match_Rep_Nil [of ic n P p s] by simp
  then have "0 < length (takeWhile P s)" using assms(2) by linarith
  moreover have "length s = length (takeWhile P s) + length (dropWhile P s)"
    by (metis length_append takeWhile_dropWhile_id)
  ultimately show ?thesis using rx_match_Rep_hd [OF assms(1)] by simp
qed

lemma scan_blanks_head:
  assumes "replaced '' '' (re_scan False BLANKS (p, s)) \<noteq> []"
    and "is_newline (hd (replaced '' '' (re_scan False BLANKS (p, s))))"
  shows "s \<noteq> [] \<and> is_newline (hd s)"
proof (cases "rx_match False BLANKS (p, s)")
  case Nil
  then show ?thesis using assms by (cases s) (simp_all add: re_scan_Nil re_scan_skip)
next
  case (Cons x xs)
  obtain p' s' where x: "x = (p', s')" by (cases x)
  have "length s' < length s"
    using rx_match_Rep_shorter [of False 2 is_blank p s x xs] Cons x by (simp add: BLANKS_def)
  then have "re_scan False BLANKS (p, s)
      = Match (take (length s - length s') s) # re_scan False BLANKS (p', s')"
    using Cons x by (simp add: re_scan_match)
  then show ?thesis using assms(2) by (simp add: is_newline_def NL_def)
qed

lemma scan_blanks:
  "\<not> adjacent is_newline is_newline s \<Longrightarrow>
   \<not> adjacent is_newline is_newline (replaced '' '' (re_scan False BLANKS (p, s)))"
proof (induction "length s" arbitrary: p s rule: less_induct)
  case less
  show ?case
  proof (cases "rx_match False BLANKS (p, s)")
    case Nil
    note no_match = Nil
    show ?thesis
    proof (cases s)
      case Nil
      then show ?thesis using no_match by (simp add: re_scan_Nil)
    next
      case (Cons c cs)
      have scan: "re_scan False BLANKS (p, s) = Skip c # re_scan False BLANKS (Some c, cs)"
        using no_match Cons by (simp add: re_scan_skip)
      have cs: "\<not> adjacent is_newline is_newline cs"
        using less.prems Cons by (simp add: adjacent_Cons)
      have IH: "\<not> adjacent is_newline is_newline (replaced '' '' (re_scan False BLANKS (Some c, cs)))"
        using less.hyps [of cs "Some c"] Cons cs by simp
      have "\<not> (is_newline c \<and> replaced '' '' (re_scan False BLANKS (Some c, cs)) \<noteq> []
           \<and> is_newline (hd (replaced '' '' (re_scan False BLANKS (Some c, cs)))))"
        using scan_blanks_head [of "Some c" cs] less.prems Cons by (auto simp add: adjacent_Cons)
      then show ?thesis using IH by (auto simp add: scan adjacent_Cons)
    qed
  next
    case (Cons x xs)
    obtain p' s' where x: "x = (p', s')" by (cases x)
    have rep: "rx_match False (Rep 2 is_blank) (p, s) = x # xs"
      using Cons by (simp add: BLANKS_def)
    have s': "s' = dropWhile is_blank s" using rx_match_Rep_hd [OF rep] x by simp
    have shorter: "length s' < length s" using rx_match_Rep_shorter [OF rep] x by simp
    have scan: "re_scan False BLANKS (p, s)
        = Match (take (length s - length s') s) # re_scan False BLANKS (p', s')"
      using Cons x shorter by (simp add: re_scan_match)
    have "\<not> adjacent is_newline is_newline s'"
      unfolding s' using less.prems by (rule adjacent_dropWhile)
    then have "\<not> adjacent is_newline is_newline (replaced '' '' (re_scan False BLANKS (p', s')))"
      using less.hyps [of s' p'] shorter by simp
    then show ?thesis by (simp add: scan adjacent_Cons is_newline_def NL_def)
  qed
qed

lemma replace_ambiguous_terms_no_blank_line:
  "\<not> contains [NL, NL] (replace_ambiguous_terms text)"
proof -
  define t where "t = re_sub False SPACES_NEWLINE [NL] (substitute_terms (by_length_desc AMBIGUOUS_TERMS) text)"
  have "\<not> adjacent is_newline is_space (re_sub False NEWLINE_SPACES [NL] t)"
    unfolding re_sub_def by (rule scan_newline_spaces)
  then have "\<not> adjacent is_newline is_newline (re_sub False NEWLINE_SPACES [NL] t)"
    using adjacent_mono [of is_newline is_newline _ is_space] is_space_NL
    by (auto simp add: is_newline_def)
  then have "\<not> adjacent is_newline is_newline (re_sub False BLANKS '' '' (re_sub False NEWLINE_SPACES [NL] t))"
    unfolding re_sub_def [of False BLANKS] by (rule scan_blanks)
  then have "\<not> adjacent is_newline is_newline
      (strip (re_sub False BLANKS '' '' (re_sub False NEWLINE_SPACES [NL] t)))"
    by (rule adjacent_strip)
  then show ?thesis
    by (simp add: contains_adjacent replace_ambiguous_terms_def Let_def t_def)
qed

lemma blank_line_collapsed:
  "replace_ambiguous_terms (''a.'' @ [NL, NL] @ ''Task:'') = ''a.'' @ [NL] @ ''Task:''"
  by (simp add: rewrite_eval char_eval rx_eval Let_def cong: list.case_cong_weak)

text \<open>
  C1 says that the rewrite is the eight sections joined with blank lines. The sections
  are joined with blank lines, but the whitespace passes that follow remove every blank
  line: for every analysis and every text the string returned contains no two
  neighbouring newlines, so its sections are separated by single newlines.
\<close>

theorem rewrite_prompt_has_no_blank_line:
  "\<exists>rewritten. rewrite_prompt (Some a) text = Inr rewritten \<and> \<not> contains [NL, NL] rewritten"
proof -
  obtain focus where f: "build_focus_phrase (extract_keywords text 6) = Inr focus"
    using build_focus_phrase_returns by blast
  obtain audience where a: "build_audience_phrase (extract_keywords text 6) = Inr audience"
    using build_audience_phrase_returns by blast
  show ?thesis
    by (simp add: rewrite_prompt_def Let_def f a replace_ambiguous_terms_no_blank_line)
qed

end
